theory Spec2Isabelle
  imports Main
begin

section \<open>Python strings\<close>

text \<open>
  The program is \<^verbatim>\<open>sort_scans.py\<close>. A Python \<^verbatim>\<open>str\<close> is a sequence of Unicode code
  points and \<^verbatim>\<open>len\<close> counts code points, so a string is modelled as a list of code
  points (natural numbers); \<open>lit\<close> turns an ASCII literal into such a list.
\<close>

type_synonym pystr = "nat list"

definition lit :: "string \<Rightarrow> pystr" where
  "lit s = map of_char s"

text \<open>
  \<^verbatim>\<open>str.isspace\<close> for one code point: the characters that \<^verbatim>\<open>str.strip()\<close> without
  argument removes.
\<close>

definition py_isspace :: "nat \<Rightarrow> bool" where
  "py_isspace c \<longleftrightarrow>
     (9 \<le> c \<and> c \<le> 13) \<or> (28 \<le> c \<and> c \<le> 32) \<or> c = 133 \<or> c = 160 \<or> c = 5760 \<or>
     (8192 \<le> c \<and> c \<le> 8202) \<or> c = 8232 \<or> c = 8233 \<or> c = 8239 \<or> c = 8287 \<or> c = 12288"

text \<open>\<^verbatim>\<open>s.strip(chars)\<close>: drop the leading and the trailing characters that belong to the set.\<close>

definition strip_where :: "(nat \<Rightarrow> bool) \<Rightarrow> pystr \<Rightarrow> pystr" where
  "strip_where P s = rev (dropWhile P (rev (dropWhile P s)))"

definition py_strip :: "pystr \<Rightarrow> pystr" where
  "py_strip s = strip_where py_isspace s"

text \<open>\<^verbatim>\<open>s.replace(a, b)\<close> for one-character \<open>a\<close> and \<open>b\<close>.\<close>

definition replace_char :: "nat \<Rightarrow> nat \<Rightarrow> pystr \<Rightarrow> pystr" where
  "replace_char a b s = map (\<lambda>c. if c = a then b else c) s"

text \<open>\<^verbatim>\<open>sep.join(xs)\<close>.\<close>

fun join :: "pystr \<Rightarrow> pystr list \<Rightarrow> pystr" where
  "join sep [] = []"
| "join sep [x] = x"
| "join sep (x # y # ys) = x @ sep @ join sep (y # ys)"

text \<open>
  \<^verbatim>\<open>s.rfind(c)\<close> for a one-character \<open>c\<close>: the highest index of \<open>c\<close> in \<open>s\<close>, or \<open>-1\<close>.
\<close>

definition rfind :: "pystr \<Rightarrow> nat \<Rightarrow> int" where
  "rfind s c =
     (if c \<in> set s then int (length s) - 1 - int (length (takeWhile (\<lambda>x. x \<noteq> c) (rev s)))
      else - 1)"

section \<open>Constants\<close>

definition MAX_FILENAME_LENGTH :: nat where
  "MAX_FILENAME_LENGTH = 150"

definition MAX_OCR_TEXT_FOR_LLM :: nat where
  "MAX_OCR_TEXT_FOR_LLM = 4000"

text \<open>
  \<^verbatim>\<open>LLM_PROMPT_TEMPLATE\<close> has the single replacement field \<^verbatim>\<open>{text}\<close>; it is kept as the
  text before the field and the text after it. Code point 10 is the newline, 39 the
  apostrophe, 34 the double quote.
\<close>

definition LLM_PROMPT_TEMPLATE :: "pystr \<times> pystr" where
  "LLM_PROMPT_TEMPLATE =
    (lit ''The following text is a text of a letter or invoice obtained via OCR, likely in German or English.'' @ [10] @
     lit ''Extract the sender and the short topic (3-5 words) from it, to use as a file name.'' @ [10] @
     lit ''Avoid including any introductory or concluding remarks like '' @ [39] @ lit ''The topic is:'' @ [39] @
     lit '' or similar.'' @ [10] @
     [10] @
     lit ''TEXT:'' @ [10],
     [10] @
     lit ''END OF TEXT'' @ [10] @
     [10] @
     lit ''Remember, your task is to extract the sender and the short topic (3-5 words) from it, to use as a file name.'' @ [10] @
     lit ''Respond ONLY in the format '' @ [34] @ lit ''SENDER - TOPIC'' @ [34] @
     lit '', without any markup, comments or surrounding text.'' @ [10])"

text \<open>\<^verbatim>\<open>LLM_PROMPT_TEMPLATE.format(text=text)\<close>.\<close>

definition format_prompt :: "pystr \<Rightarrow> pystr" where
  "format_prompt text = fst LLM_PROMPT_TEMPLATE @ text @ snd LLM_PROMPT_TEMPLATE"

section \<open>The filename sanitizer\<close>

text \<open>
  \<^verbatim>\<open>convert_topic_to_filename\<close> (lines 133 to 143). \<^verbatim>\<open>sanitize_filename\<close> belongs to the
  library \<^verbatim>\<open>pathvalidate\<close>, not to this program: it is the parameter \<open>sanitize_filename\<close>,
  any function from strings to strings. The result \<open>None\<close> is Python's \<^verbatim>\<open>None\<close>.
  Code point 32 is the space, 95 the underscore, 45 the hyphen.
\<close>

definition convert_topic_to_filename :: "(pystr \<Rightarrow> pystr) \<Rightarrow> pystr \<Rightarrow> pystr option" where
  "convert_topic_to_filename sanitize_filename topic =
     (if topic = [] then None
      else
        let sanitized = sanitize_filename topic;
            sanitized = replace_char 32 95 sanitized;
            sanitized = strip_where (\<lambda>c. c \<in> {32, 95, 45}) sanitized;
            sanitized = take MAX_FILENAME_LENGTH sanitized
        in if sanitized = [] then Some (lit ''Untitled'') else Some sanitized)"

section \<open>The extension of a file name\<close>

text \<open>
  \<^verbatim>\<open>os.path.splitext\<close> is Python's standard library. Its code is
  \<^verbatim>\<open>genericpath._splitext(p, sep, altsep, extsep)\<close>:
  \<^verbatim>\<open>
    sepIndex = p.rfind(sep)
    if altsep:
        altsepIndex = p.rfind(altsep)
        sepIndex = max(sepIndex, altsepIndex)
    dotIndex = p.rfind(extsep)
    if dotIndex > sepIndex:
        # skip all leading dots
        filenameIndex = sepIndex + 1
        while filenameIndex < dotIndex:
            if p[filenameIndex:filenameIndex+1] != extsep:
                return p[:dotIndex], p[dotIndex:]
            filenameIndex += 1
    return p, p[:0]
  \<close>
  and \<^verbatim>\<open>posixpath.splitext(p)\<close> calls it with \<^verbatim>\<open>sep = '/'\<close> (47), no \<^verbatim>\<open>altsep\<close> and
  \<^verbatim>\<open>extsep = '.'\<close> (46). \<open>skip_leading_dots\<close> is the \<^verbatim>\<open>while\<close> loop.
\<close>

function skip_leading_dots :: "pystr \<Rightarrow> nat \<Rightarrow> nat \<Rightarrow> nat \<Rightarrow> pystr \<times> pystr" where
  "skip_leading_dots p extsep filenameIndex dotIndex =
     (if filenameIndex < dotIndex then
        (if take 1 (drop filenameIndex p) \<noteq> [extsep] then (take dotIndex p, drop dotIndex p)
         else skip_leading_dots p extsep (filenameIndex + 1) dotIndex)
      else (p, []))"
  by pat_completeness auto
termination
  by (relation "measure (\<lambda>(p, extsep, filenameIndex, dotIndex). dotIndex - filenameIndex)") auto

declare skip_leading_dots.simps [simp del]

definition splitext_generic :: "pystr \<Rightarrow> nat \<Rightarrow> nat option \<Rightarrow> nat \<Rightarrow> pystr \<times> pystr" where
  "splitext_generic p sep altsep extsep =
     (let sepIndex = rfind p sep;
          sepIndex = (case altsep of None \<Rightarrow> sepIndex | Some a \<Rightarrow> max sepIndex (rfind p a));
          dotIndex = rfind p extsep
      in if dotIndex > sepIndex then skip_leading_dots p extsep (nat (sepIndex + 1)) (nat dotIndex)
         else (p, []))"

definition splitext :: "pystr \<Rightarrow> pystr \<times> pystr" where
  "splitext p = splitext_generic p 47 None 46"

text \<open>
  Lines 206 and 207 of \<^verbatim>\<open>main\<close>: the candidate new name is the sanitized base followed by
  the second component of \<^verbatim>\<open>os.path.splitext(original_name)\<close>.
\<close>

definition candidate_name :: "pystr \<Rightarrow> pystr \<Rightarrow> pystr" where
  "candidate_name new_name_base original_name =
     (let file_extension = snd (splitext original_name)
      in new_name_base @ file_extension)"

text \<open>
  The extension as the specification words it: the original name split at its last dot,
  the dot included; none when the name has no dot.
\<close>

definition spec_extension :: "pystr \<Rightarrow> pystr" where
  "spec_extension original_name =
     (if 46 \<in> set original_name then 46 # rev (takeWhile (\<lambda>c. c \<noteq> 46) (rev original_name))
      else [])"

section \<open>The text extractor\<close>

text \<open>
  \<^verbatim>\<open>perform_ocr_on_pdf\<close> (lines 65 to 105) calls PyMuPDF, \<^verbatim>\<open>tempfile\<close>, PIL, Tesseract and
  \<^verbatim>\<open>os.remove\<close>. What these calls do in one run is the environment of the model; every
  call either returns or raises.

  For one page: \<open>raster_ok\<close> says that \<^verbatim>\<open>doc.load_page\<close> and \<^verbatim>\<open>page.get_pixmap\<close> return
  (lines 75, 76); \<open>temp_name\<close> is the name of the file that \<^verbatim>\<open>NamedTemporaryFile\<close> creates
  (line 78), \<open>None\<close> when it raises; \<open>save_ok\<close> says that \<^verbatim>\<open>pix.save\<close> returns (line 80);
  \<open>ocr_text\<close> is the text that \<^verbatim>\<open>image_to_string\<close> returns, \<open>None\<close> when \<^verbatim>\<open>Image.open\<close> or
  \<^verbatim>\<open>image_to_string\<close> raises (lines 84, 85).

  For the document: \<open>pdf_pages\<close> is \<open>None\<close> when \<^verbatim>\<open>fitz.open\<close> raises (line 70), else the
  pages in order; \<open>close_ok\<close> says that \<^verbatim>\<open>doc.close\<close> returns (line 93).
\<close>

record page_env =
  raster_ok :: bool
  temp_name :: "pystr option"
  save_ok :: bool
  ocr_text :: "pystr option"

record pdf_env =
  pdf_pages :: "page_env list option"
  close_ok :: bool

datatype failure =
  OpenFailed | RasterFailed | TempFileFailed | SaveFailed | CloseFailed | DownloadFailed

text \<open>
  The state of the extractor: the two local lists of the source, the set of files that
  exist, and a record of every file that \<^verbatim>\<open>NamedTemporaryFile\<close> has created (the record is
  not a variable of the source; the claims count the created files).
\<close>

record ocr_state =
  image_temp_files :: "pystr list"
  pages :: "pystr list"
  files :: "pystr set"
  created :: "pystr list"

text \<open>
  One iteration of the loop over the pages (lines 75 to 89). The first component of the
  result is the exception that leaves the iteration, if any. The file exists as soon as
  \<^verbatim>\<open>NamedTemporaryFile(delete=False)\<close> returns; its name joins \<^verbatim>\<open>image_temp_files\<close> only
  after \<^verbatim>\<open>pix.save\<close>. An exception of the OCR calls is caught inside the iteration and
  nothing is appended to \<^verbatim>\<open>pages\<close>.
\<close>

definition page_step :: "page_env \<Rightarrow> ocr_state \<Rightarrow> failure option \<times> ocr_state" where
  "page_step p s =
     (if raster_ok p then
        (case temp_name p of
           None \<Rightarrow> (Some TempFileFailed, s)
         | Some img_path \<Rightarrow>
             let s1 = s\<lparr>files := insert img_path (files s), created := created s @ [img_path]\<rparr>
             in if save_ok p then
                  let s2 = s1\<lparr>image_temp_files := image_temp_files s1 @ [img_path]\<rparr>
                  in (case ocr_text p of
                        Some page_text \<Rightarrow> (None, s2\<lparr>pages := pages s2 @ [page_text]\<rparr>)
                      | None \<Rightarrow> (None, s2))
                else (Some SaveFailed, s1))
      else (Some RasterFailed, s))"

fun page_loop :: "page_env list \<Rightarrow> ocr_state \<Rightarrow> failure option \<times> ocr_state" where
  "page_loop [] s = (None, s)"
| "page_loop (p # ps) s =
     (case page_step p s of
        (Some e, s') \<Rightarrow> (Some e, s')
      | (None, s') \<Rightarrow> page_loop ps s')"

text \<open>
  The \<^verbatim>\<open>finally\<close> block (lines 98 to 103): each listed file that exists is removed;
  \<open>remove_ok\<close> says for which files \<^verbatim>\<open>os.remove\<close> returns. Where it raises, the exception
  is caught and the file stays.
\<close>

fun cleanup_images :: "(pystr \<Rightarrow> bool) \<Rightarrow> pystr list \<Rightarrow> pystr set \<Rightarrow> pystr set" where
  "cleanup_images remove_ok [] fs = fs"
| "cleanup_images remove_ok (img_path # rest) fs =
     cleanup_images remove_ok rest
       (if img_path \<in> fs \<and> remove_ok img_path then fs - {img_path} else fs)"

record ocr_run =
  text_result :: "pystr option"
  files_after :: "pystr set"
  created_files :: "pystr list"

text \<open>
  The whole function. \<open>text_result\<close> is what it returns (\<open>None\<close> is Python's \<^verbatim>\<open>None\<close>, from
  the \<^verbatim>\<open>except\<close> clause of line 94), \<open>files_after\<close> the files that exist when it returns,
  \<open>created_files\<close> the temporary images it created. The argument \<open>env\<close> stands for the PDF
  at \<^verbatim>\<open>pdf_path\<close>, \<open>fs\<close> for the files that exist at the call.
\<close>

definition perform_ocr_on_pdf :: "(pystr \<Rightarrow> bool) \<Rightarrow> pdf_env \<Rightarrow> pystr set \<Rightarrow> ocr_run" where
  "perform_ocr_on_pdf remove_ok env fs =
     (case pdf_pages env of
        None \<Rightarrow> \<lparr>text_result = None, files_after = fs, created_files = []\<rparr>
      | Some doc \<Rightarrow>
          (case page_loop doc \<lparr>image_temp_files = [], pages = [], files = fs, created = []\<rparr> of
             (raised, s) \<Rightarrow>
               \<lparr>text_result =
                  (case raised of
                     Some e \<Rightarrow> None
                   | None \<Rightarrow> if close_ok env then Some (py_strip (join [10] (pages s))) else None),
                files_after = cleanup_images remove_ok (image_temp_files s) (files s),
                created_files = created s\<rparr>))"

text \<open>
  The result as the specification words it: the OCR texts of all pages joined by a
  newline, a page whose OCR failed contributing the empty string, then trimmed.
\<close>

definition spec_extracted_text :: "page_env list \<Rightarrow> pystr" where
  "spec_extracted_text doc =
     py_strip (join [10] (map (\<lambda>p. case ocr_text p of None \<Rightarrow> [] | Some t \<Rightarrow> t) doc))"

section \<open>The topic inferencer\<close>

text \<open>
  \<^verbatim>\<open>get_topic_from_llm\<close> (lines 108 to 130). The inference service \<^verbatim>\<open>ollama.generate\<close> is
  the parameter \<open>generate\<close>, from the prompt to what the call does: it raises, or its
  answer is empty or has no field \<^verbatim>\<open>'response'\<close>, or it answers with a text. The result is
  the returned topic together with the list of the prompts sent to the service.
\<close>

datatype llm_outcome = LlmRaises | LlmNoResponse | LlmResponse pystr

definition get_topic_from_llm :: "(pystr \<Rightarrow> llm_outcome) \<Rightarrow> pystr \<Rightarrow> pystr option \<times> pystr list" where
  "get_topic_from_llm generate text =
     (if text = [] then (None, [])
      else
        let text = (if length text > MAX_OCR_TEXT_FOR_LLM then take MAX_OCR_TEXT_FOR_LLM text
                    else text);
            prompt = format_prompt text
        in (case generate prompt of
              LlmResponse r \<Rightarrow> (Some (py_strip r), [prompt])
            | LlmNoResponse \<Rightarrow> (None, [prompt])
            | LlmRaises \<Rightarrow> (None, [prompt])))"

section \<open>The document processor\<close>

text \<open>
  The loop of \<^verbatim>\<open>main\<close> (lines 174 to 231). An item of the listing has an id and a name.
  The environment of one document: what the download does (lines 181 to 188:
  \<^verbatim>\<open>get_media\<close> raises; \<^verbatim>\<open>NamedTemporaryFile\<close> raises; the temporary file is created and
  \<^verbatim>\<open>next_chunk\<close> raises; or the download is done into the named file), the downloaded PDF,
  the inference service, and whether the rename request \<^verbatim>\<open>files().update(...).execute()\<close>
  returns.
\<close>

record item =
  item_id :: pystr
  item_name :: pystr

datatype download_outcome =
  GetMediaRaises | TempFileRaises | ChunkRaises pystr | Downloaded pystr

record doc_env =
  download :: download_outcome
  pdf :: pdf_env
  generate_of :: "pystr \<Rightarrow> llm_outcome"
  update_ok :: bool

text \<open>
  The trace records the requests to the Drive service and the messages that tell the
  branches of the loop body apart: line 177 (\<open>Processing\<close>), 193, 198, 203, 208
  (\<open>NewName\<close>), the rename request of lines 214 to 218 (\<open>UpdateCall\<close>, with the file id and
  the new name), 219, 221, 224 (\<open>Unexpected\<close>), 229 and 231.
\<close>

datatype event =
  Processing pystr pystr
  | NoText
  | NoTopic
  | EmptyName
  | NewName pystr
  | UpdateCall pystr pystr
  | RenameSuccessful
  | RenameError
  | Unexpected pystr
  | CleanedUp pystr
  | CleanupError pystr

record run_state =
  fs_of :: "pystr set"
  trace :: "event list"

definition emit :: "event \<Rightarrow> run_state \<Rightarrow> run_state" where
  "emit e st = st\<lparr>trace := trace st @ [e]\<rparr>"

text \<open>
  The body of the \<^verbatim>\<open>try\<close> statement (lines 181 to 221). The result is the exception that
  reaches the \<^verbatim>\<open>except\<close> clause of line 223 (if any), the value of \<^verbatim>\<open>temp_pdf_path\<close> and
  the state. A \<^verbatim>\<open>continue\<close> leaves the body without exception. \<^verbatim>\<open>temp_pdf_path\<close> is
  assigned after the download loop (line 188).
\<close>

definition try_body ::
  "(pystr \<Rightarrow> pystr) \<Rightarrow> (pystr \<Rightarrow> bool) \<Rightarrow> item \<Rightarrow> doc_env \<Rightarrow> run_state \<Rightarrow>
   failure option \<times> pystr option \<times> run_state" where
  "try_body sanitize_filename remove_ok it env st =
     (case download env of
        GetMediaRaises \<Rightarrow> (Some DownloadFailed, None, st)
      | TempFileRaises \<Rightarrow> (Some TempFileFailed, None, st)
      | ChunkRaises temp_file \<Rightarrow>
          (Some DownloadFailed, None, st\<lparr>fs_of := insert temp_file (fs_of st)\<rparr>)
      | Downloaded temp_pdf_path \<Rightarrow>
          let st = st\<lparr>fs_of := insert temp_pdf_path (fs_of st)\<rparr>;
              run = perform_ocr_on_pdf remove_ok (pdf env) (fs_of st);
              st = st\<lparr>fs_of := files_after run\<rparr>
          in (case text_result run of
                None \<Rightarrow> (None, Some temp_pdf_path, emit NoText st)
              | Some text \<Rightarrow>
                  if text = [] then (None, Some temp_pdf_path, emit NoText st)
                  else
                    (case fst (get_topic_from_llm (generate_of env) text) of
                       None \<Rightarrow> (None, Some temp_pdf_path, emit NoTopic st)
                     | Some topic \<Rightarrow>
                         if topic = [] then (None, Some temp_pdf_path, emit NoTopic st)
                         else
                           (case convert_topic_to_filename sanitize_filename topic of
                              None \<Rightarrow> (None, Some temp_pdf_path, emit EmptyName st)
                            | Some new_name_base \<Rightarrow>
                                if new_name_base = [] then
                                  (None, Some temp_pdf_path, emit EmptyName st)
                                else
                                  let new_name = candidate_name new_name_base (item_name it);
                                      st = emit (NewName new_name) st
                                  in if new_name = item_name it then
                                       (None, Some temp_pdf_path, st)
                                     else
                                       let st = emit (UpdateCall (item_id it) new_name) st
                                       in if update_ok env then
                                            (None, Some temp_pdf_path, emit RenameSuccessful st)
                                          else
                                            (None, Some temp_pdf_path, emit RenameError st)))))"

text \<open>The \<^verbatim>\<open>finally\<close> clause of the loop body (lines 226 to 231).\<close>

definition finally_cleanup :: "(pystr \<Rightarrow> bool) \<Rightarrow> pystr option \<Rightarrow> run_state \<Rightarrow> run_state" where
  "finally_cleanup remove_ok temp_pdf_path st =
     (case temp_pdf_path of
        None \<Rightarrow> st
      | Some path \<Rightarrow>
          if path \<noteq> [] \<and> path \<in> fs_of st then
            (if remove_ok path then emit (CleanedUp path) (st\<lparr>fs_of := fs_of st - {path}\<rparr>)
             else emit (CleanupError path) st)
          else st)"

text \<open>One iteration of the loop (lines 175 to 231).\<close>

definition process_document ::
  "(pystr \<Rightarrow> pystr) \<Rightarrow> (pystr \<Rightarrow> bool) \<Rightarrow> item \<Rightarrow> doc_env \<Rightarrow> run_state \<Rightarrow> run_state" where
  "process_document sanitize_filename remove_ok it env st =
     (let st = emit (Processing (item_name it) (item_id it)) st
      in (case try_body sanitize_filename remove_ok it env st of
            (raised, temp_pdf_path, st) \<Rightarrow>
              let st = (case raised of
                          Some e \<Rightarrow> emit (Unexpected (item_name it)) st
                        | None \<Rightarrow> st)
              in finally_cleanup remove_ok temp_pdf_path st))"

text \<open>The loop over the listed items, each with its environment.\<close>

fun main_loop ::
  "(pystr \<Rightarrow> pystr) \<Rightarrow> (pystr \<Rightarrow> bool) \<Rightarrow> (item \<times> doc_env) list \<Rightarrow> run_state \<Rightarrow> run_state" where
  "main_loop sanitize_filename remove_ok [] st = st"
| "main_loop sanitize_filename remove_ok ((it, env) # rest) st =
     main_loop sanitize_filename remove_ok rest
       (process_document sanitize_filename remove_ok it env st)"

fun is_Processing :: "event \<Rightarrow> bool" where
  "is_Processing (Processing n i) = True"
| "is_Processing e = False"

fun is_UpdateCall :: "event \<Rightarrow> bool" where
  "is_UpdateCall (UpdateCall i n) = True"
| "is_UpdateCall e = False"

section \<open>Example documents\<close>

text \<open>
  A page that rasterizes, whose image is written to \<open>img_path\<close> and whose OCR gives
  \<open>page_text\<close> (\<open>None\<close>: the OCR raises); a document of three pages whose second page
  fails OCR; and one whose second page fails rasterization.
\<close>

definition scanned_page :: "pystr \<Rightarrow> pystr option \<Rightarrow> page_env" where
  "scanned_page img_path page_text =
     \<lparr>raster_ok = True, temp_name = Some img_path, save_ok = True, ocr_text = page_text\<rparr>"

definition three_pages_ocr_failure :: "page_env list" where
  "three_pages_ocr_failure =
     [scanned_page (lit ''/tmp/tmp1.png'') (Some (lit ''a'')),
      scanned_page (lit ''/tmp/tmp2.png'') None,
      scanned_page (lit ''/tmp/tmp3.png'') (Some (lit ''b''))]"

definition three_pages_raster_failure :: "page_env list" where
  "three_pages_raster_failure =
     [scanned_page (lit ''/tmp/tmp1.png'') (Some (lit ''a'')),
      (scanned_page (lit ''/tmp/tmp2.png'') (Some (lit ''x'')))\<lparr>raster_ok := False\<rparr>,
      scanned_page (lit ''/tmp/tmp3.png'') (Some (lit ''b''))]"

text \<open>
  A document that downloads into \<open>temp_pdf\<close>, has one page with the text \<^verbatim>\<open>Invoice\<close>, for
  which the inference service answers \<open>answer\<close>, and whose rename request succeeds or not.
\<close>

definition example_doc_env :: "pystr \<Rightarrow> pystr \<Rightarrow> bool \<Rightarrow> doc_env" where
  "example_doc_env temp_pdf answer renames =
     \<lparr>download = Downloaded temp_pdf,
      pdf = \<lparr>pdf_pages = Some [scanned_page (lit ''/tmp/tmp1.png'') (Some (lit ''Invoice''))],
             close_ok = True\<rparr>,
      generate_of = (\<lambda>prompt. LlmResponse answer),
      update_ok = renames\<rparr>"

text \<open>The message of line 177 for a listed document.\<close>

definition processing_of :: "item \<times> doc_env \<Rightarrow> event" where
  "processing_of d = Processing (item_name (fst d)) (item_id (fst d))"

lemmas ocr_defs = perform_ocr_on_pdf_def page_step_def py_strip_def strip_where_def
  py_isspace_def lit_def scanned_page_def

lemmas run_defs = process_document_def try_body_def finally_cleanup_def emit_def
  get_topic_from_llm_def convert_topic_to_filename_def replace_char_def
  candidate_name_def splitext_def splitext_generic_def skip_leading_dots.simps rfind_def
  MAX_FILENAME_LENGTH_def Let_def

section \<open>Properties of the string operations\<close>

lemma lit_Untitled: "lit ''Untitled'' = [85, 110, 116, 105, 116, 108, 101, 100]"
  by (simp add: lit_def)

lemma strip_where_ends:
  "strip_where P s = [] \<or> (\<not> P (hd (strip_where P s)) \<and> \<not> P (last (strip_where P s)))"
  unfolding strip_where_def
  by (metis dropWhile_eq_self_iff hd_dropWhile hd_rev last_appendR last_rev
      rev.simps(1) takeWhile_dropWhile_id)

lemma strip_where_fixed:
  assumes "s \<noteq> []" "\<not> P (hd s)" "\<not> P (last s)"
  shows "strip_where P s = s"
proof -
  have "dropWhile P s = s"
    using assms by (cases s) auto
  moreover have "dropWhile P (rev s) = rev s"
    using assms by (cases "rev s") (auto simp: last_rev hd_rev)
  ultimately show ?thesis
    by (simp add: strip_where_def)
qed

lemma set_strip_where: "set (strip_where P s) \<subseteq> set s"
proof -
  have "set (dropWhile P (rev (dropWhile P s))) \<subseteq> set (rev (dropWhile P s))"
    by (rule set_dropWhileD [THEN subsetI])
  also have "\<dots> \<subseteq> set s"
    using set_dropWhileD [of _ P s] by auto
  finally show ?thesis
    by (simp add: strip_where_def)
qed

lemma replace_char_absent: "a \<noteq> b \<Longrightarrow> a \<notin> set (replace_char a b s)"
  by (induction s) (auto simp: replace_char_def)

lemma replace_char_fixed: "a \<notin> set s \<Longrightarrow> replace_char a b s = s"
  by (induction s) (auto simp: replace_char_def)

section \<open>The filename sanitizer: results\<close>

text \<open>
  Claim C4, as stated, says that the sanitizer returns a non-empty string for every
  input, the empty string included. Line 135 returns \<^verbatim>\<open>None\<close> for the empty string.
\<close>

theorem convert_topic_to_filename_empty_input:
  "convert_topic_to_filename (\<lambda>s. s) [] = None"
  by (simp add: convert_topic_to_filename_def)

text \<open>
  Claim C4, amended: for the empty input the sanitizer returns \<^verbatim>\<open>None\<close>; for every
  non-empty input, and whatever string the library's \<^verbatim>\<open>sanitize_filename\<close> returns, it
  returns a non-empty string of at most 150 characters, which is the placeholder
  \<^verbatim>\<open>Untitled\<close> when the replaced, stripped and cut string is empty.
\<close>

theorem convert_topic_to_filename_nonempty_bounded:
  "convert_topic_to_filename san [] = None \<and>
   (topic \<noteq> [] \<longrightarrow>
     (\<exists>r. convert_topic_to_filename san topic = Some r \<and> r \<noteq> [] \<and>
          length r \<le> MAX_FILENAME_LENGTH \<and>
          (take MAX_FILENAME_LENGTH
             (strip_where (\<lambda>c. c \<in> {32, 95, 45}) (replace_char 32 95 (san topic))) = []
           \<longrightarrow> r = lit ''Untitled'')))"
proof (intro conjI impI)
  show "convert_topic_to_filename san [] = None"
    by (simp add: convert_topic_to_filename_def)
next
  assume ne: "topic \<noteq> []"
  let ?t = "take MAX_FILENAME_LENGTH
             (strip_where (\<lambda>c. c \<in> {32, 95, 45}) (replace_char 32 95 (san topic)))"
  show "\<exists>r. convert_topic_to_filename san topic = Some r \<and> r \<noteq> [] \<and>
          length r \<le> MAX_FILENAME_LENGTH \<and> (?t = [] \<longrightarrow> r = lit ''Untitled'')"
  proof (cases "?t = []")
    case True
    with ne have "convert_topic_to_filename san topic = Some (lit ''Untitled'')"
      by (simp add: convert_topic_to_filename_def Let_def)
    then show ?thesis
      by (simp add: lit_Untitled MAX_FILENAME_LENGTH_def)
  next
    case False
    with ne have "convert_topic_to_filename san topic = Some ?t"
      by (simp add: convert_topic_to_filename_def Let_def)
    with False show ?thesis
      by simp
  qed
qed

theorem convert_topic_to_filename_nonempty_bounded_witness:
  "lit ''Acme Corp - Invoice Payment'' \<noteq> [] \<and>
   convert_topic_to_filename (\<lambda>s. s) (lit ''Acme Corp - Invoice Payment'')
     = Some (lit ''Acme_Corp_-_Invoice_Payment'') \<and>
   lit '' - '' \<noteq> [] \<and>
   convert_topic_to_filename (\<lambda>s. s) (lit '' - '') = Some (lit ''Untitled'')"
  using convert_topic_to_filename_nonempty_bounded [of "\<lambda>s. s" "lit ''Acme Corp - Invoice Payment''"]
    convert_topic_to_filename_nonempty_bounded [of "\<lambda>s. s" "lit '' - ''"]
  by (simp add: convert_topic_to_filename_def lit_def replace_char_def strip_where_def
      MAX_FILENAME_LENGTH_def)

text \<open>
  Claim C6, as stated, says that sanitizing the sanitizer's output gives that output
  again. The cut to 150 characters comes after the stripping (lines 139, 140), so it can
  leave an underscore at the end, which a second pass strips: with a library sanitizer
  that leaves these two strings of letters and an underscore as they are, 149 letters
  \<^verbatim>\<open>a\<close> followed by \<^verbatim>\<open>_b\<close> give 149 letters and the underscore, and that output gives
  the 149 letters alone.
\<close>

theorem convert_topic_to_filename_not_idempotent:
  "convert_topic_to_filename (\<lambda>s. s) (replicate 149 97 @ [95, 98])
     = Some (replicate 149 97 @ [95]) \<and>
   convert_topic_to_filename (\<lambda>s. s) (replicate 149 97 @ [95]) = Some (replicate 149 97) \<and>
   replicate 149 97 @ [95] \<noteq> replicate 149 (97::nat)"
  by (simp add: convert_topic_to_filename_def Let_def MAX_FILENAME_LENGTH_def replace_char_def
      strip_where_def)

text \<open>
  Claim C6, amended: sanitizing an output \<open>r\<close> of the sanitizer gives \<open>r\<close> again whenever
  the library's \<^verbatim>\<open>sanitize_filename\<close> leaves \<open>r\<close> unchanged and the cut to 150 characters
  removed nothing or left neither an underscore nor a hyphen at the end of \<open>r\<close>.
\<close>

theorem convert_topic_to_filename_idempotent_uncut:
  assumes r: "convert_topic_to_filename san topic = Some r"
    and san: "san r = r"
    and cut: "length (strip_where (\<lambda>c. c \<in> {32, 95, 45}) (replace_char 32 95 (san topic)))
                \<le> MAX_FILENAME_LENGTH \<or> last r \<notin> {95, 45}"
  shows "convert_topic_to_filename san r = Some r"
proof -
  let ?P = "\<lambda>c::nat. c \<in> {32, 95, 45}"
  let ?core = "strip_where ?P (replace_char 32 95 (san topic))"
  from r have ne: "topic \<noteq> []"
    by (auto simp: convert_topic_to_filename_def)
  have no_space: "32 \<notin> set ?core"
    using set_strip_where [of ?P "replace_char 32 95 (san topic)"]
      replace_char_absent [of 32 95 "san topic"] by auto
  have ends: "?core = [] \<or> (\<not> ?P (hd ?core) \<and> \<not> ?P (last ?core))"
    by (rule strip_where_ends)
  have shape: "r \<noteq> [] \<and> length r \<le> 150 \<and> 32 \<notin> set r \<and> \<not> ?P (hd r) \<and> \<not> ?P (last r)"
  proof (cases "take 150 ?core = []")
    case True
    with r ne have "r = lit ''Untitled''"
      by (simp add: convert_topic_to_filename_def Let_def MAX_FILENAME_LENGTH_def)
    then show ?thesis
      by (simp add: lit_Untitled)
  next
    case False
    with r ne have eq: "r = take 150 ?core"
      by (simp add: convert_topic_to_filename_def Let_def MAX_FILENAME_LENGTH_def)
    from False have cne: "?core \<noteq> []"
      by auto
    have "32 \<notin> set r"
      using no_space eq by (auto dest: in_set_takeD)
    moreover have "hd r = hd ?core"
      using False eq by simp
    moreover have "\<not> ?P (last r)"
    proof (cases "length ?core \<le> 150")
      case True
      then have "r = ?core" using eq by simp
      then show ?thesis using ends cne by simp
    next
      case False
      with cut have "last r \<notin> {95, 45}"
        by (simp add: MAX_FILENAME_LENGTH_def)
      moreover have "last r \<in> set r"
        using \<open>take 150 ?core \<noteq> []\<close> eq by simp
      ultimately show ?thesis
        using \<open>32 \<notin> set r\<close> by auto
    qed
    ultimately show ?thesis
      using False eq ends cne by simp
  qed
  then have "replace_char 32 95 r = r" and "strip_where ?P r = r" and "take 150 r = r"
    by (simp_all add: replace_char_fixed strip_where_fixed)
  then show ?thesis
    using shape san by (simp add: convert_topic_to_filename_def Let_def MAX_FILENAME_LENGTH_def)
qed

theorem convert_topic_to_filename_idempotent_uncut_witness:
  "convert_topic_to_filename (\<lambda>s. s) (lit ''Acme Corp - Invoice Payment '')
     = Some (lit ''Acme_Corp_-_Invoice_Payment'') \<and>
   convert_topic_to_filename (\<lambda>s. s) (lit ''Acme_Corp_-_Invoice_Payment'')
     = Some (lit ''Acme_Corp_-_Invoice_Payment'')"
proof -
  have first: "convert_topic_to_filename (\<lambda>s. s) (lit ''Acme Corp - Invoice Payment '')
     = Some (lit ''Acme_Corp_-_Invoice_Payment'')"
    by (simp add: convert_topic_to_filename_def lit_def replace_char_def strip_where_def
        MAX_FILENAME_LENGTH_def)
  have "convert_topic_to_filename (\<lambda>s. s) (lit ''Acme_Corp_-_Invoice_Payment'')
     = Some (lit ''Acme_Corp_-_Invoice_Payment'')"
    by (rule convert_topic_to_filename_idempotent_uncut [OF first])
      (simp_all add: lit_def replace_char_def strip_where_def MAX_FILENAME_LENGTH_def)
  with first show ?thesis
    by simp
qed

section \<open>The text extractor: the page loop and the cleanup\<close>

lemma cleanup_images_subset: "cleanup_images remove_ok xs fs \<subseteq> fs"
proof (induction xs arbitrary: fs)
  case Nil
  then show ?case by simp
next
  case (Cons x xs)
  have "cleanup_images remove_ok xs (if x \<in> fs \<and> remove_ok x then fs - {x} else fs)
          \<subseteq> (if x \<in> fs \<and> remove_ok x then fs - {x} else fs)"
    by (rule Cons.IH)
  then show ?case by (auto split: if_splits)
qed

lemma cleanup_images_removes:
  "q \<in> set xs \<Longrightarrow> remove_ok q \<Longrightarrow> q \<notin> cleanup_images remove_ok xs fs"
proof (induction xs arbitrary: fs)
  case Nil
  then show ?case by simp
next
  case (Cons x xs)
  show ?case
  proof (cases "q = x")
    case True
    with Cons.prems have "q \<notin> (if x \<in> fs \<and> remove_ok x then fs - {x} else fs)"
      by simp
    then show ?thesis
      using cleanup_images_subset [of remove_ok xs "if x \<in> fs \<and> remove_ok x then fs - {x} else fs"]
      by auto
  next
    case False
    with Cons.prems have "q \<in> set xs" by simp
    from Cons.IH [OF this Cons.prems(2)] show ?thesis by simp
  qed
qed

text \<open>While no \<^verbatim>\<open>pix.save\<close> fails, every created file is in \<^verbatim>\<open>image_temp_files\<close>.\<close>

lemma page_step_created_listed:
  assumes "save_ok p" "set (created s) \<subseteq> set (image_temp_files s)"
  shows "set (created (snd (page_step p s))) \<subseteq> set (image_temp_files (snd (page_step p s)))"
  using assms by (auto simp: page_step_def Let_def split: option.splits)

lemma page_loop_created_listed:
  assumes "\<forall>p\<in>set ps. save_ok p" "set (created s) \<subseteq> set (image_temp_files s)"
  shows "set (created (snd (page_loop ps s))) \<subseteq> set (image_temp_files (snd (page_loop ps s)))"
  using assms
proof (induction ps arbitrary: s)
  case Nil
  then show ?case by simp
next
  case (Cons p ps)
  obtain e s' where step: "page_step p s = (e, s')"
    by (cases "page_step p s")
  from Cons.prems have listed: "set (created s') \<subseteq> set (image_temp_files s')"
    using page_step_created_listed [of p s] step by simp
  show ?case
  proof (cases e)
    case None
    with step listed Cons show ?thesis by simp
  next
    case (Some a)
    with step listed show ?thesis by simp
  qed
qed

text \<open>A page whose rasterization, temporary file and save succeed.\<close>

lemma page_step_ok:
  assumes "raster_ok p" "temp_name p \<noteq> None" "save_ok p"
  shows "fst (page_step p s) = None"
    and "pages (snd (page_step p s)) = pages s @ (case ocr_text p of None \<Rightarrow> [] | Some t \<Rightarrow> [t])"
    and "length (created (snd (page_step p s))) = Suc (length (created s))"
  using assms by (auto simp: page_step_def Let_def split: option.splits)

lemma page_loop_ok:
  assumes "\<forall>p\<in>set ps. raster_ok p \<and> temp_name p \<noteq> None \<and> save_ok p"
  shows "fst (page_loop ps s) = None \<and>
         pages (snd (page_loop ps s)) = pages s @ List.map_filter ocr_text ps \<and>
         length (created (snd (page_loop ps s))) = length (created s) + length ps"
  using assms
proof (induction ps arbitrary: s)
  case Nil
  then show ?case by (simp add: map_filter_simps)
next
  case (Cons p ps)
  obtain e s' where step: "page_step p s = (e, s')"
    by (cases "page_step p s")
  from Cons.prems have ok: "raster_ok p" "temp_name p \<noteq> None" "save_ok p"
    by simp_all
  from page_step_ok [OF ok, of s] step
  have e: "e = None"
    and p': "pages s' = pages s @ (case ocr_text p of None \<Rightarrow> [] | Some t \<Rightarrow> [t])"
    and c': "length (created s') = Suc (length (created s))"
    by simp_all
  from Cons.prems have "\<forall>p\<in>set ps. raster_ok p \<and> temp_name p \<noteq> None \<and> save_ok p"
    by simp
  from Cons.IH [OF this, of s'] step e p' c' show ?case
    by (simp add: map_filter_simps split: option.splits)
qed



section \<open>The text extractor: results\<close>

text \<open>
  Claim C1, as stated, says that every run on a PDF of N pages creates exactly N
  temporary images. The rasterization of a page (lines 75, 76) is outside the inner
  \<^verbatim>\<open>try\<close>: when it raises, the \<^verbatim>\<open>except\<close> clause of line 94 ends the loop. Of three pages
  whose second page fails rasterization, one image is created.
\<close>

theorem perform_ocr_on_pdf_fewer_images:
  "length three_pages_raster_failure = 3 \<and>
   length (created_files (perform_ocr_on_pdf (\<lambda>q. True)
      \<lparr>pdf_pages = Some three_pages_raster_failure, close_ok = True\<rparr> {})) = 1"
  by (simp add: ocr_defs three_pages_raster_failure_def)

text \<open>
  Claim C1, amended: on a PDF that opens with N pages, (a) if every page rasterizes and
  its temporary image is created and saved, exactly N temporary images are created,
  however many pages fail OCR and whether or not the extraction as a whole returns a
  text; (b) in every run in which no \<^verbatim>\<open>pix.save\<close> fails and \<^verbatim>\<open>os.remove\<close> fails for none of
  the created images, no created image exists when the extractor returns, whether it
  returns a text or the failure signal.
\<close>

theorem perform_ocr_on_pdf_images_created_and_deleted:
  assumes doc: "pdf_pages env = Some doc"
  shows "((\<forall>p\<in>set doc. raster_ok p \<and> temp_name p \<noteq> None \<and> save_ok p) \<longrightarrow>
            length (created_files (perform_ocr_on_pdf remove_ok env fs)) = length doc) \<and>
         ((\<forall>p\<in>set doc. save_ok p) \<and>
          (\<forall>q\<in>set (created_files (perform_ocr_on_pdf remove_ok env fs)). remove_ok q) \<longrightarrow>
            (\<forall>q\<in>set (created_files (perform_ocr_on_pdf remove_ok env fs)).
               q \<notin> files_after (perform_ocr_on_pdf remove_ok env fs)))"
proof (intro conjI impI)
  let ?s0 = "\<lparr>image_temp_files = [], pages = [], files = fs, created = []\<rparr>"
  obtain e s where loop: "page_loop doc ?s0 = (e, s)"
    by (cases "page_loop doc ?s0")
  have cf: "created_files (perform_ocr_on_pdf remove_ok env fs) = created s"
    and fa: "files_after (perform_ocr_on_pdf remove_ok env fs)
               = cleanup_images remove_ok (image_temp_files s) (files s)"
    using doc loop by (simp_all add: perform_ocr_on_pdf_def)
  {
    assume "\<forall>p\<in>set doc. raster_ok p \<and> temp_name p \<noteq> None \<and> save_ok p"
    from page_loop_ok [OF this, of ?s0] loop
    show "length (created_files (perform_ocr_on_pdf remove_ok env fs)) = length doc"
      by (simp add: cf)
  }
  {
    assume a: "(\<forall>p\<in>set doc. save_ok p) \<and>
          (\<forall>q\<in>set (created_files (perform_ocr_on_pdf remove_ok env fs)). remove_ok q)"
    then have "set (created s) \<subseteq> set (image_temp_files s)"
      using page_loop_created_listed [of doc ?s0] loop by simp
    then show "\<forall>q\<in>set (created_files (perform_ocr_on_pdf remove_ok env fs)).
               q \<notin> files_after (perform_ocr_on_pdf remove_ok env fs)"
      using cleanup_images_removes [of _ "image_temp_files s" remove_ok "files s"] a
      by (auto simp: cf fa)
  }
qed

theorem perform_ocr_on_pdf_images_created_and_deleted_witness:
  "pdf_pages \<lparr>pdf_pages = Some three_pages_ocr_failure, close_ok = True\<rparr>
     = Some three_pages_ocr_failure \<and>
   length three_pages_ocr_failure = 3 \<and>
   length (created_files (perform_ocr_on_pdf (\<lambda>q. True)
      \<lparr>pdf_pages = Some three_pages_ocr_failure, close_ok = True\<rparr> {})) = 3 \<and>
   set (created_files (perform_ocr_on_pdf (\<lambda>q. True)
        \<lparr>pdf_pages = Some three_pages_ocr_failure, close_ok = True\<rparr> {}))
     \<inter> files_after (perform_ocr_on_pdf (\<lambda>q. True)
        \<lparr>pdf_pages = Some three_pages_ocr_failure, close_ok = True\<rparr> {}) = {}"
proof -
  have opened: "pdf_pages \<lparr>pdf_pages = Some three_pages_ocr_failure, close_ok = True\<rparr>
     = Some three_pages_ocr_failure"
    by simp
  have ok: "\<forall>p\<in>set three_pages_ocr_failure. raster_ok p \<and> temp_name p \<noteq> None \<and> save_ok p"
    by (simp add: three_pages_ocr_failure_def scanned_page_def)
  have len: "length three_pages_ocr_failure = 3"
    by (simp add: three_pages_ocr_failure_def)
  from perform_ocr_on_pdf_images_created_and_deleted [OF opened, of "\<lambda>q. True" "{}"] ok len
  show ?thesis
    by auto
qed




text \<open>
  Claim C5, as stated, says that a page whose OCR failed contributes the empty string to
  the joined sequence. Line 86 appends a page's text only when its OCR succeeds; a failed
  page contributes nothing. Of three pages with the texts \<^verbatim>\<open>a\<close>, failure and \<^verbatim>\<open>b\<close>, the
  extractor returns \<^verbatim>\<open>a\<close>, newline, \<^verbatim>\<open>b\<close>; the claim's text has two newlines.
\<close>

theorem perform_ocr_on_pdf_failed_page_not_joined:
  "text_result (perform_ocr_on_pdf (\<lambda>q. True)
      \<lparr>pdf_pages = Some three_pages_ocr_failure, close_ok = True\<rparr> {}) = Some [97, 10, 98] \<and>
   spec_extracted_text three_pages_ocr_failure = [97, 10, 10, 98]"
  by (simp add: ocr_defs three_pages_ocr_failure_def spec_extracted_text_def)

text \<open>
  Claim C5, amended: for every PDF that opens, all of whose pages rasterize and have
  their temporary image created and saved, and that closes, the extractor returns the
  OCR texts of the pages whose OCR succeeded, in page order, joined by a single newline
  and trimmed of leading and trailing whitespace; a page whose OCR failed contributes
  nothing to the joined sequence.
\<close>

theorem perform_ocr_on_pdf_text:
  assumes doc: "pdf_pages env = Some doc"
    and ok: "\<forall>p\<in>set doc. raster_ok p \<and> temp_name p \<noteq> None \<and> save_ok p"
    and close: "close_ok env"
  shows "text_result (perform_ocr_on_pdf remove_ok env fs)
           = Some (py_strip (join [10] (List.map_filter ocr_text doc)))"
proof -
  let ?s0 = "\<lparr>image_temp_files = [], pages = [], files = fs, created = []\<rparr>"
  obtain e s where loop: "page_loop doc ?s0 = (e, s)"
    by (cases "page_loop doc ?s0")
  from page_loop_ok [OF ok, of ?s0] loop
  have "e = None" and "pages s = List.map_filter ocr_text doc"
    by simp_all
  with doc loop close show ?thesis
    by (simp add: perform_ocr_on_pdf_def)
qed

theorem perform_ocr_on_pdf_text_witness:
  "close_ok \<lparr>pdf_pages = Some three_pages_ocr_failure, close_ok = True\<rparr> \<and>
   List.map_filter ocr_text three_pages_ocr_failure = [[97], [98]] \<and>
   text_result (perform_ocr_on_pdf (\<lambda>q. True)
      \<lparr>pdf_pages = Some three_pages_ocr_failure, close_ok = True\<rparr> {})
     = Some (py_strip (join [10] [[97], [98]]))"
proof -
  have opened: "pdf_pages \<lparr>pdf_pages = Some three_pages_ocr_failure, close_ok = True\<rparr>
     = Some three_pages_ocr_failure"
    by simp
  have ok: "\<forall>p\<in>set three_pages_ocr_failure. raster_ok p \<and> temp_name p \<noteq> None \<and> save_ok p"
    by (simp add: three_pages_ocr_failure_def scanned_page_def)
  have closes: "close_ok \<lparr>pdf_pages = Some three_pages_ocr_failure, close_ok = True\<rparr>"
    by simp
  have texts: "List.map_filter ocr_text three_pages_ocr_failure = [[97], [98]]"
    by (simp add: three_pages_ocr_failure_def scanned_page_def map_filter_simps lit_def)
  from perform_ocr_on_pdf_text [OF opened ok closes, of "\<lambda>q. True" "{}"] texts
  show ?thesis
    by simp
qed

section \<open>The topic inferencer: results\<close>



text \<open>
  Claim C8: for the empty text the topic inferencer returns \<^verbatim>\<open>None\<close> (no topic) and sends
  no prompt to the inference service, whatever the service would do.
\<close>

theorem get_topic_from_llm_empty_text:
  "get_topic_from_llm generate [] = (None, [])"
  by (simp add: get_topic_from_llm_def)

section \<open>The extension of a file name: results\<close>

lemma rfind_absent: "c \<notin> set s \<Longrightarrow> rfind s c = - 1"
  by (simp add: rfind_def)

lemma takeWhile_rev_last:
  "c \<notin> set ys \<Longrightarrow> takeWhile (\<lambda>x. x \<noteq> c) (rev (xs @ c # ys)) = rev ys"
proof -
  assume c: "c \<notin> set ys"
  have "takeWhile (\<lambda>x. x \<noteq> c) (rev ys @ c # rev xs)
          = rev ys @ takeWhile (\<lambda>x. x \<noteq> c) (c # rev xs)"
    using c by (intro takeWhile_append2) auto
  then show ?thesis
    by simp
qed

lemma rfind_last: "c \<notin> set ys \<Longrightarrow> rfind (xs @ c # ys) c = int (length xs)"
  using takeWhile_rev_last [of c ys xs] by (simp add: rfind_def)

lemma rfind_succ: "rfind s c + 1 = int (length (dropWhile (\<lambda>x. x \<noteq> c) (rev s)))"
proof (cases "c \<in> set s")
  case True
  have "length (takeWhile (\<lambda>x. x \<noteq> c) (rev s)) + length (dropWhile (\<lambda>x. x \<noteq> c) (rev s))
          = length s"
    using takeWhile_dropWhile_id [of "\<lambda>x. x \<noteq> c" "rev s"]
    by (metis length_append length_rev)
  with True show ?thesis
    by (simp add: rfind_def)
next
  case False
  then have "dropWhile (\<lambda>x. x \<noteq> c) (rev s) = []"
    by auto
  with False show ?thesis
    by (simp add: rfind_def)
qed

text \<open>The loop returns the split at \<open>d\<close> as soon as it meets a character other than \<open>e\<close>.\<close>

lemma skip_leading_dots_eq:
  "d < length p \<Longrightarrow>
   skip_leading_dots p e i d =
     (if \<exists>k. i \<le> k \<and> k < d \<and> p ! k \<noteq> e then (take d p, drop d p) else (p, []))"
proof (induction p e i d rule: skip_leading_dots.induct)
  case (1 p e i d)
  show ?case
  proof (cases "i < d")
    case False
    then show ?thesis
      by (auto simp: skip_leading_dots.simps [of p e i d])
  next
    case True
    with "1.prems" have char: "take 1 (drop i p) = [p ! i]"
      by (simp add: take_Suc_conv_app_nth)
    show ?thesis
    proof (cases "p ! i = e")
      case False
      with True have "\<exists>k. i \<le> k \<and> k < d \<and> p ! k \<noteq> e"
        by auto
      with True False char show ?thesis
        by (simp add: skip_leading_dots.simps [of p e i d])
    next
      case same: True
      have "(\<exists>k. i \<le> k \<and> k < d \<and> p ! k \<noteq> e) \<longleftrightarrow> (\<exists>k. i + 1 \<le> k \<and> k < d \<and> p ! k \<noteq> e)"
        using same by (metis Suc_eq_plus1 Suc_leI le_neq_implies_less add_leD1)
      moreover have "skip_leading_dots p e i d = skip_leading_dots p e (i + 1) d"
        using True same char by (simp add: skip_leading_dots.simps [of p e i d])
      ultimately show ?thesis
        using "1.IH" [OF True _ "1.prems"] char same by simp
    qed
  qed
qed

lemma dropWhile_dots_mem:
  assumes "e \<notin> set c2"
  shows "e \<in> set (dropWhile (\<lambda>c. c = e) (c1 @ e # c2)) \<longleftrightarrow> (\<exists>x\<in>set c1. x \<noteq> e)"
proof (cases "\<exists>x\<in>set c1. x \<noteq> e")
  case True
  then obtain x where "x \<in> set c1" "\<not> x = e"
    by auto
  then have "dropWhile (\<lambda>c. c = e) (c1 @ e # c2) = dropWhile (\<lambda>c. c = e) c1 @ e # c2"
    by (simp add: dropWhile_append1)
  with True show ?thesis by simp
next
  case False
  then have "dropWhile (\<lambda>c. c = e) (c1 @ e # c2) = dropWhile (\<lambda>c. c = e) c2"
    by (simp add: dropWhile_append2)
  moreover have "e \<notin> set (dropWhile (\<lambda>c. c = e) c2)"
    using assms by (auto dest: set_dropWhileD)
  ultimately show ?thesis
    using False by simp
qed

text \<open>
  The extension that \<^verbatim>\<open>splitext\<close> returns, in terms of the part of the name after its last
  slash: when that part, without its leading dots, still has a dot, the extension is the
  name from its last dot on; otherwise it is empty.
\<close>

lemma splitext_ext:
  "snd (splitext name) =
     (if 46 \<in> set (dropWhile (\<lambda>c. c = 46) (rev (takeWhile (\<lambda>c. c \<noteq> 47) (rev name))))
      then spec_extension name else [])"
proof -
  let ?comp = "rev (takeWhile (\<lambda>c. c \<noteq> 47) (rev name))"
  let ?pre = "rev (dropWhile (\<lambda>c. c \<noteq> 47) (rev name))"
  have name: "name = ?pre @ ?comp"
    by (metis rev_append rev_rev_ident takeWhile_dropWhile_id)
  have sep_int: "rfind name 47 + 1 = int (length ?pre)"
    by (simp add: rfind_succ)
  then have sep: "nat (rfind name 47 + 1) = length ?pre"
    by simp
  have split: "splitext name =
      (if rfind name 46 > rfind name 47
       then skip_leading_dots name 46 (length ?pre) (nat (rfind name 46)) else (name, []))"
    using sep by (simp add: splitext_def splitext_generic_def Let_def)
  show ?thesis
  proof (cases "46 \<in> set ?comp")
    case True
    then obtain c1 c2 where comp: "?comp = c1 @ 46 # c2" and c2: "46 \<notin> set c2"
      by (meson split_list_last)
    have name': "name = (?pre @ c1) @ 46 # c2"
      using name comp by simp
    have dot: "rfind name 46 = int (length ?pre + length c1)"
      using rfind_last [OF c2, of "?pre @ c1"] name' by simp
    have ext: "spec_extension name = 46 # c2"
      using takeWhile_rev_last [OF c2, of "?pre @ c1"] name'
      by (metis (no_types, lifting) in_set_conv_decomp rev_rev_ident spec_extension_def)
    have "(\<exists>k. length ?pre \<le> k \<and> k < length ?pre + length c1 \<and> name ! k \<noteq> 46)
            \<longleftrightarrow> (\<exists>x\<in>set c1. x \<noteq> 46)"
    proof
      assume "\<exists>k. length ?pre \<le> k \<and> k < length ?pre + length c1 \<and> name ! k \<noteq> 46"
      then obtain k where k: "length ?pre \<le> k" "k < length ?pre + length c1" "name ! k \<noteq> 46"
        by blast
      then have inside: "k - length ?pre < length c1"
        by arith
      with k have "name ! k = c1 ! (k - length ?pre)"
        by (subst name') (simp add: nth_append)
      with k inside show "\<exists>x\<in>set c1. x \<noteq> 46"
        by (metis nth_mem)
    next
      assume "\<exists>x\<in>set c1. x \<noteq> 46"
      then obtain i where i: "i < length c1" "c1 ! i \<noteq> 46"
        by (metis in_set_conv_nth)
      then have "name ! (length ?pre + i) = c1 ! i"
        by (subst name') (simp add: nth_append)
      with i show "\<exists>k. length ?pre \<le> k \<and> k < length ?pre + length c1 \<and> name ! k \<noteq> 46"
        by (intro exI [of _ "length ?pre + i"]) simp
    qed
    moreover have "length name = length ?pre + length c1 + 1 + length c2"
      using arg_cong [OF name', of length] by simp
    then have "length ?pre + length c1 < length name"
      by simp
    moreover have "take (length ?pre + length c1) name = ?pre @ c1"
      and "drop (length ?pre + length c1) name = 46 # c2"
      using append_eq_conv_conj [THEN iffD1, OF name' [symmetric]] by simp_all
    ultimately have skip: "skip_leading_dots name 46 (length ?pre) (length ?pre + length c1)
        = (if \<exists>x\<in>set c1. x \<noteq> 46 then (?pre @ c1, 46 # c2) else (name, []))"
      using skip_leading_dots_eq [of "length ?pre + length c1" name 46 "length ?pre"]
      by simp
    have "rfind name 47 < rfind name 46"
      using sep_int dot by simp
    moreover have "nat (rfind name 46) = length ?pre + length c1"
      by (simp only: dot nat_int)
    ultimately have "splitext name
        = skip_leading_dots name 46 (length ?pre) (length ?pre + length c1)"
      by (simp add: split)
    with skip have "snd (splitext name) = (if \<exists>x\<in>set c1. x \<noteq> 46 then 46 # c2 else [])"
      by simp
    then show ?thesis
      using dropWhile_dots_mem [OF c2, of c1] comp ext by simp
  next
    case False
    have "rfind name 46 + 1 \<le> int (length ?pre)"
    proof (cases "46 \<in> set name")
      case True
      with False name have "46 \<in> set ?pre"
        by (metis Un_iff set_append)
      then obtain p1 p2 where pre: "?pre = p1 @ 46 # p2" and p2: "46 \<notin> set p2"
        by (meson split_list_last)
      have "name = p1 @ 46 # (p2 @ ?comp)"
        using name pre by simp
      moreover have "46 \<notin> set (p2 @ ?comp)"
        using p2 False by simp
      ultimately have "rfind name 46 = int (length p1)"
        using rfind_last [of 46 "p2 @ ?comp" p1] by simp
      then show ?thesis
        using pre by simp
    next
      case False
      then show ?thesis
        by (simp add: rfind_absent)
    qed
    then have "snd (splitext name) = []"
      using sep_int by (simp add: split)
    moreover have "46 \<notin> set (dropWhile (\<lambda>c. c = 46) ?comp)"
      using False by (auto dest: set_dropWhileD)
    ultimately show ?thesis
      by simp
  qed
qed

text \<open>
  Claim C10, as stated, says that the extension appended is the original name split at
  its last dot, the dot included. For the original name \<^verbatim>\<open>.pdf\<close> that extension is
  \<^verbatim>\<open>.pdf\<close>, while \<^verbatim>\<open>os.path.splitext\<close> counts a leading dot as part of the root: the
  candidate name is the sanitized base alone. Likewise for \<^verbatim>\<open>1.2/scan\<close>, whose last dot
  comes before a slash.
\<close>

theorem candidate_name_leading_dot:
  "candidate_name (lit ''Invoice'') (lit ''.pdf'') = lit ''Invoice'' \<and>
   lit ''Invoice'' @ spec_extension (lit ''.pdf'') = lit ''Invoice.pdf'' \<and>
   candidate_name (lit ''Invoice'') (lit ''1.2/scan'') = lit ''Invoice'' \<and>
   lit ''Invoice'' @ spec_extension (lit ''1.2/scan'') = lit ''Invoice.2/scan''"
  by (simp add: candidate_name_def splitext_def splitext_generic_def rfind_def spec_extension_def
      lit_def skip_leading_dots.simps)

text \<open>
  Claim C10, amended: the candidate new name is the sanitized base followed by the
  original name from its last dot on (the dot included) when, in the part of the original
  name after its last slash, a dot comes after some character other than a dot;
  otherwise (the name has no dot, its last dot comes before a slash, or the dots of its
  last part are all leading) the candidate name is the sanitized base alone.
\<close>

theorem candidate_name_extension:
  "candidate_name base name =
     (if 46 \<in> set (dropWhile (\<lambda>c. c = 46) (rev (takeWhile (\<lambda>c. c \<noteq> 47) (rev name))))
      then base @ spec_extension name else base) \<and>
   (46 \<notin> set name \<longrightarrow> candidate_name base name = base)"
proof -
  have "46 \<notin> set name \<Longrightarrow>
        46 \<notin> set (dropWhile (\<lambda>c. c = 46) (rev (takeWhile (\<lambda>c. c \<noteq> 47) (rev name))))"
    by (auto dest!: set_dropWhileD set_takeWhileD)
  then show ?thesis
    by (auto simp: candidate_name_def splitext_ext)
qed

theorem candidate_name_extension_witness:
  "candidate_name (lit ''Invoice'') (lit ''scan.pdf'') = lit ''Invoice.pdf'' \<and>
   46 \<notin> set (lit ''scan'') \<and>
   candidate_name (lit ''Invoice'') (lit ''scan'') = lit ''Invoice''"
  using candidate_name_extension [of "lit ''Invoice''" "lit ''scan.pdf''"]
    candidate_name_extension [of "lit ''Invoice''" "lit ''scan''"]
  by (simp add: spec_extension_def lit_def)

section \<open>The document processor: results\<close>

lemma try_body_Processing:
  "filter is_Processing (trace (snd (snd (try_body san rm it env st))))
     = filter is_Processing (trace st)"
  by (auto simp: try_body_def Let_def emit_def split: download_outcome.splits option.splits)

lemma finally_cleanup_Processing:
  "filter is_Processing (trace (finally_cleanup rm p st)) = filter is_Processing (trace st)"
  by (auto simp: finally_cleanup_def emit_def split: option.splits)

text \<open>
  Whatever happens in the body, one iteration adds exactly one \<open>Processing\<close> message, its
  own, and returns a state from which the loop goes on.
\<close>

lemma process_document_Processing:
  "filter is_Processing (trace (process_document san rm it env st))
     = filter is_Processing (trace st) @ [Processing (item_name it) (item_id it)]"
proof -
  let ?st0 = "emit (Processing (item_name it) (item_id it)) st"
  obtain raised p st1 where body: "try_body san rm it env ?st0 = (raised, p, st1)"
    by (cases "try_body san rm it env ?st0")
  have "filter is_Processing (trace st1) = filter is_Processing (trace ?st0)"
    using try_body_Processing [of san rm it env ?st0] body by simp
  then show ?thesis
    using body
    by (cases raised)
      (simp_all add: process_document_def Let_def finally_cleanup_Processing emit_def)
qed

lemma main_loop_Processing:
  "filter is_Processing (trace (main_loop san rm docs st))
     = filter is_Processing (trace st) @ map processing_of docs"
proof (induction docs arbitrary: st)
  case Nil
  then show ?case by simp
next
  case (Cons d docs)
  obtain it env where d: "d = (it, env)"
    by (cases d)
  show ?case
    by (simp add: d Cons.IH process_document_Processing processing_of_def)
qed

lemma finally_cleanup_trace:
  "filter is_UpdateCall (trace (finally_cleanup rm p st)) = filter is_UpdateCall (trace st)"
  "NewName n \<in> set (trace (finally_cleanup rm p st)) \<longleftrightarrow> NewName n \<in> set (trace st)"
  "Unexpected n \<in> set (trace (finally_cleanup rm p st)) \<longleftrightarrow> Unexpected n \<in> set (trace st)"
  by (auto simp: finally_cleanup_def emit_def split: option.splits)

lemma try_body_same_name:
  assumes "NewName (item_name it) \<in> set (trace (snd (snd (try_body san rm it env st))))"
    and "NewName (item_name it) \<notin> set (trace st)"
  shows "fst (try_body san rm it env st) = None \<and>
         filter is_UpdateCall (trace (snd (snd (try_body san rm it env st))))
           = filter is_UpdateCall (trace st)"
  using assms
  by (auto simp: try_body_def Let_def emit_def
      split: download_outcome.splits option.splits if_splits)

lemma try_body_Unexpected:
  "Unexpected n \<in> set (trace (snd (snd (try_body san rm it env st))))
     \<longleftrightarrow> Unexpected n \<in> set (trace st)"
  by (auto simp: try_body_def Let_def emit_def
      split: download_outcome.splits option.splits if_splits)



text \<open>
  Claim C9: when the candidate new name of a document (the name that line 208 prints)
  equals its original name, the processing of the document issues no rename request and
  raises no error, and the run goes on with the documents after it.
\<close>

theorem process_document_same_name_no_rename:
  assumes same: "NewName (item_name it)
                   \<in> set (trace (process_document san rm it env \<lparr>fs_of = fs, trace = []\<rparr>))"
  shows "filter is_UpdateCall
           (trace (process_document san rm it env \<lparr>fs_of = fs, trace = []\<rparr>)) = [] \<and>
         Unexpected (item_name it)
           \<notin> set (trace (process_document san rm it env \<lparr>fs_of = fs, trace = []\<rparr>)) \<and>
         filter is_Processing
           (trace (main_loop san rm ((it, env) # rest) \<lparr>fs_of = fs, trace = []\<rparr>))
           = Processing (item_name it) (item_id it) # map processing_of rest"
proof -
  let ?st0 = "emit (Processing (item_name it) (item_id it)) \<lparr>fs_of = fs, trace = []\<rparr>"
  obtain raised p st1 where body: "try_body san rm it env ?st0 = (raised, p, st1)"
    by (cases "try_body san rm it env ?st0")
  have run: "process_document san rm it env \<lparr>fs_of = fs, trace = []\<rparr>
               = finally_cleanup rm p
                   (case raised of Some e \<Rightarrow> emit (Unexpected (item_name it)) st1 | None \<Rightarrow> st1)"
    using body by (simp add: process_document_def Let_def)
  have "NewName (item_name it) \<in> set (trace st1)"
    using same by (cases raised) (simp_all add: run finally_cleanup_trace emit_def)
  moreover have "NewName (item_name it) \<notin> set (trace ?st0)"
    by (simp add: emit_def)
  ultimately have none: "raised = None"
    and calls: "filter is_UpdateCall (trace st1) = filter is_UpdateCall (trace ?st0)"
    using try_body_same_name [of it san rm env ?st0] body by simp_all
  have "Unexpected (item_name it) \<notin> set (trace st1)"
    using try_body_Unexpected [of "item_name it" san rm it env ?st0] body
    by (simp add: emit_def)
  moreover have "filter is_Processing
           (trace (main_loop san rm ((it, env) # rest) \<lparr>fs_of = fs, trace = []\<rparr>))
           = Processing (item_name it) (item_id it) # map processing_of rest"
    using main_loop_Processing [of san rm "(it, env) # rest" "\<lparr>fs_of = fs, trace = []\<rparr>"]
    by (simp add: processing_of_def)
  ultimately show ?thesis
    using none calls by (simp add: run finally_cleanup_trace emit_def)
qed

theorem process_document_same_name_no_rename_witness:
  "trace (process_document (\<lambda>s. s) (\<lambda>q. True)
     \<lparr>item_id = lit ''id1'', item_name = lit ''Acme_-_Invoice.pdf''\<rparr>
     (example_doc_env (lit ''/tmp/tmpA.pdf'') (lit ''Acme - Invoice'') True)
     \<lparr>fs_of = {}, trace = []\<rparr>)
   = [Processing (lit ''Acme_-_Invoice.pdf'') (lit ''id1''),
      NewName (lit ''Acme_-_Invoice.pdf''),
      CleanedUp (lit ''/tmp/tmpA.pdf'')] \<and>
   filter is_UpdateCall (trace (process_document (\<lambda>s. s) (\<lambda>q. True)
     \<lparr>item_id = lit ''id1'', item_name = lit ''Acme_-_Invoice.pdf''\<rparr>
     (example_doc_env (lit ''/tmp/tmpA.pdf'') (lit ''Acme - Invoice'') True)
     \<lparr>fs_of = {}, trace = []\<rparr>)) = []"
proof -
  have run: "trace (process_document (\<lambda>s. s) (\<lambda>q. True)
     \<lparr>item_id = lit ''id1'', item_name = lit ''Acme_-_Invoice.pdf''\<rparr>
     (example_doc_env (lit ''/tmp/tmpA.pdf'') (lit ''Acme - Invoice'') True)
     \<lparr>fs_of = {}, trace = []\<rparr>)
   = [Processing (lit ''Acme_-_Invoice.pdf'') (lit ''id1''),
      NewName (lit ''Acme_-_Invoice.pdf''),
      CleanedUp (lit ''/tmp/tmpA.pdf'')]"
    by (simp add: run_defs ocr_defs example_doc_env_def)
  then have same: "NewName (item_name \<lparr>item_id = lit ''id1'', item_name = lit ''Acme_-_Invoice.pdf''\<rparr>)
      \<in> set (trace (process_document (\<lambda>s. s) (\<lambda>q. True)
           \<lparr>item_id = lit ''id1'', item_name = lit ''Acme_-_Invoice.pdf''\<rparr>
           (example_doc_env (lit ''/tmp/tmpA.pdf'') (lit ''Acme - Invoice'') True)
           \<lparr>fs_of = {}, trace = []\<rparr>))"
    by simp
  from process_document_same_name_no_rename [OF same, of "[]"] run show ?thesis
    by blast
qed

end
